theory Spec2Isabelle
  imports Main "HOL-Library.Word"
begin

section \<open>The cloud-init ISO driver \<^verbatim>\<open>zm_geniso\<close> of \<^verbatim>\<open>src/iso.c\<close>\<close>

text \<open>
  \<^verbatim>\<open>zm_geniso\<close> is a driver: it asks libisoburn/libisofs for an image, adds two nodes,
  asks for a burn source and copies what the burn source delivers into the output file.
  The libraries and the operating system are the environment of the function. The model
  makes the environment explicit: a record \<open>env\<close> holds the answer of every library and
  system call the function makes, the function is then a pure function of the
  environment, the file system and its three arguments, and it returns its exit code
  together with the calls it made (a trace) and the file system it leaves behind.
\<close>

subsection \<open>Data\<close>

type_synonym byte = "8 word"

type_synonym filesystem = "string \<rightharpoonup> byte list"

text \<open>
  Modelled from the spec: the type \<^verbatim>\<open>IsoImage\<close> and the functions \<^verbatim>\<open>iso_image_new\<close>,
  \<^verbatim>\<open>iso_image_set_volume_id\<close> and \<^verbatim>\<open>iso_tree_add_new_node\<close> belong to libisofs, which is
  not part of the sources. Section 3 of the spec gives what an image owns; the driver
  touches the volume identifier and the children of the root directory, each child being
  a name and the source it was added from. The functions are what the calls do to the
  image when they succeed; whether they succeed is the environment's answer.
\<close>

record iso_image =
  volume_id :: string
  root_nodes :: "(string \<times> string) list"

definition iso_image_new :: "string \<Rightarrow> iso_image" where
  "iso_image_new name = \<lparr>volume_id = name, root_nodes = []\<rparr>"

definition iso_image_set_volume_id :: "iso_image \<Rightarrow> string \<Rightarrow> iso_image" where
  "iso_image_set_volume_id img vid = img\<lparr>volume_id := vid\<rparr>"

definition iso_tree_add_new_node :: "iso_image \<Rightarrow> string \<Rightarrow> string \<Rightarrow> iso_image" where
  "iso_tree_add_new_node img name path =
     img\<lparr>root_nodes := root_nodes img @ [(name, path)]\<rparr>"

text \<open>
  Modelled from the spec: the type \<^verbatim>\<open>IsoWriteOpts\<close> and the functions
  \<^verbatim>\<open>iso_write_opts_new\<close>, \<^verbatim>\<open>iso_write_opts_set_rockridge\<close> and \<^verbatim>\<open>iso_write_opts_set_joliet\<close>
  belong to libisofs, which is not part of the sources. Section 3 of the spec gives the
  configuration record \<^verbatim>\<open>{ rock_ridge: on/off, joliet: on/off, iso_level: 1|2|3 }\<close> and
  its values for this program, \<^verbatim>\<open>{ rock_ridge: on, joliet: on, iso_level: 2 }\<close>: the integer
  handed over at creation stands for the level, each extension is on once it has been set
  to a value other than zero.
\<close>

record iso_write_opts =
  iso_level :: int
  rock_ridge :: bool
  joliet :: bool

definition iso_write_opts_new :: "int \<Rightarrow> iso_write_opts" where
  "iso_write_opts_new level = \<lparr>iso_level = level, rock_ridge = False, joliet = False\<rparr>"

definition iso_write_opts_set_rockridge :: "iso_write_opts \<Rightarrow> int \<Rightarrow> iso_write_opts" where
  "iso_write_opts_set_rockridge opts enable = opts\<lparr>rock_ridge := (enable \<noteq> 0)\<rparr>"

definition iso_write_opts_set_joliet :: "iso_write_opts \<Rightarrow> int \<Rightarrow> iso_write_opts" where
  "iso_write_opts_set_joliet opts enable = opts\<lparr>joliet := (enable \<noteq> 0)\<rparr>"

text \<open>
  Every call that leaves the function, with the arguments that matter and its answer:
  \<open>Ev_open path fd\<close>, \<open>Ev_read size chunk\<close>, \<open>Ev_write fd bytes count returned\<close>,
  \<open>Ev_close fd\<close>.
\<close>

datatype event =
    Ev_isoburn_initialize
  | Ev_iso_init
  | Ev_iso_image_new string
  | Ev_iso_image_set_volume_id string
  | Ev_iso_image_get_root
  | Ev_iso_tree_add_new_node string string
  | Ev_iso_write_opts_new int
  | Ev_iso_write_opts_set_rockridge int
  | Ev_iso_write_opts_set_joliet int
  | Ev_iso_image_create_burn_source iso_image iso_write_opts
  | Ev_open string int
  | Ev_read int int
  | Ev_write int "byte list" int int
  | Ev_close int
  | Ev_burn_source_free
  | Ev_iso_write_opts_free
  | Ev_iso_image_unref

text \<open>
  The environment. A \<open>_ret\<close> field is the value the call returns, a \<open>_null\<close> field says
  that the pointer the call hands back is \<^verbatim>\<open>NULL\<close>. The burn source answers its \<open>i\<close>-th
  read with a return value and the contents of the 2048-byte buffer after the call;
  \<open>write_ret\<close> is what the \<open>i\<close>-th \<^verbatim>\<open>write\<close> returns. \<^verbatim>\<open>errno\<close> is a variable every
  library call may assign: \<open>open_errno\<close> is what a failed \<^verbatim>\<open>open\<close> stores there, and the
  three \<open>_errno\<close> options are what the release calls store (\<open>None\<close>: they leave it alone).
\<close>

record env =
  isoburn_initialize_ret :: int
  iso_init_ret :: int
  iso_image_new_ret :: int
  iso_image_new_null :: bool
  iso_image_get_root_null :: bool
  iso_tree_add_new_node_ret :: "string \<Rightarrow> string \<Rightarrow> int"
  iso_write_opts_new_ret :: int
  iso_write_opts_new_null :: bool
  iso_image_create_burn_source_ret :: int
  iso_image_create_burn_source_null :: bool
  open_ret :: int
  open_errno :: int
  burn_src_has_read :: bool
  burn_src_read :: "nat \<Rightarrow> int \<times> byte list"
  burn_src_read_xt :: "nat \<Rightarrow> int \<times> byte list"
  write_ret :: "nat \<Rightarrow> int"
  burn_source_free_errno :: "int option"
  iso_write_opts_free_errno :: "int option"
  iso_image_unref_errno :: "int option"

record world =
  trace :: "event list"
  files :: filesystem

subsection \<open>Constants and system calls\<close>

text \<open>\<^verbatim>\<open>EINVAL\<close> comes from \<^verbatim>\<open><errno.h>\<close>; on Linux it is 22.\<close>

definition EINVAL :: int where
  "EINVAL = 22"

text \<open>\<^verbatim>\<open>(int)sizeof(buffer)\<close> for \<^verbatim>\<open>unsigned char buffer[2048]\<close>.\<close>

definition buffer_size :: int where
  "buffer_size = 2048"

text \<open>A call that may assign \<^verbatim>\<open>errno\<close>.\<close>

definition set_errno :: "int option \<Rightarrow> int \<Rightarrow> int" where
  "set_errno new old = (case new of None \<Rightarrow> old | Some e \<Rightarrow> e)"

text \<open>
  \<^verbatim>\<open>open(output, O_CREAT | O_TRUNC | O_WRONLY, 0644)\<close>, when it succeeds, leaves an empty
  file at the path; \<^verbatim>\<open>write\<close> appends at the file offset the bytes it accepted.
\<close>

definition open_trunc :: "filesystem \<Rightarrow> string \<Rightarrow> filesystem" where
  "open_trunc fs path = fs(path \<mapsto> [])"

definition append_file :: "filesystem \<Rightarrow> string \<Rightarrow> byte list \<Rightarrow> filesystem" where
  "append_file fs path bs = fs(path \<mapsto> (case fs path of None \<Rightarrow> bs | Some old \<Rightarrow> old @ bs))"

text \<open>
  \<^verbatim>\<open>burn_src->read ? burn_src->read(...) : burn_src->read_xt(...)\<close>
\<close>

definition burn_read :: "env \<Rightarrow> nat \<Rightarrow> int \<times> byte list" where
  "burn_read env i = (if burn_src_has_read env then burn_src_read env i else burn_src_read_xt env i)"

subsection \<open>The write loop\<close>

text \<open>
  \<^verbatim>\<open>while (1) { chunk = read; if (chunk < 0) { r = -1; break; } if (chunk == 0) break;
  w = write(fd, buffer, chunk); if (w != chunk) { r = -1; break; } }\<close>
  The loop ends only when the source or the sink ends it, so it is a partial function:
  \<open>None\<close> is a run that never leaves the loop. The result is \<open>r\<close> and the world.
  \<^verbatim>\<open>write(fd, buffer, chunk)\<close> hands over the first \<open>chunk\<close> bytes of the buffer (a burn
  source returns no more than the size it was given), and the file grows by the bytes the
  call reports as written.
\<close>

partial_function (option) write_loop ::
  "env \<Rightarrow> int \<Rightarrow> string \<Rightarrow> nat \<Rightarrow> world \<Rightarrow> (int \<times> world) option" where
  "write_loop env fd output i w =
     (let chunk = fst (burn_read env i);
          buffer = snd (burn_read env i);
          w1 = w\<lparr>trace := trace w @ [Ev_read buffer_size chunk]\<rparr>
      in if chunk < 0 then Some (- 1, w1)
         else if chunk = 0 then Some (0, w1)
         else
           let n = write_ret env i;
               w2 = \<lparr>trace = trace w1 @ [Ev_write fd (take (nat chunk) buffer) chunk n],
                     files = append_file (files w1) output
                               (take (nat n) (take (nat chunk) buffer))\<rparr>
           in if n \<noteq> chunk then Some (- 1, w2)
              else write_loop env fd output (Suc i) w2)"

subsection \<open>The driver\<close>

text \<open>
  \<^verbatim>\<open>int zm_geniso(const char* output, const char* user_data, const char* meta_data)\<close>.
  A \<^verbatim>\<open>const char*\<close> is \<open>None\<close> when it is null. The checks, the early returns with
  their release calls and their codes follow the source statement by statement; the
  trace grows by one event for each call.
\<close>

definition zm_geniso ::
  "env \<Rightarrow> filesystem \<Rightarrow> string option \<Rightarrow> string option \<Rightarrow> string option
     \<Rightarrow> (int \<times> world) option" where
  "zm_geniso env fs output user_data meta_data =
     (case (output, user_data, meta_data) of
        (Some out, Some ud, Some md) \<Rightarrow>
          let t1 = [Ev_isoburn_initialize] in
          if isoburn_initialize_ret env \<le> 0 then Some (126, \<lparr>trace = t1, files = fs\<rparr>)
          else
          let t2 = t1 @ [Ev_iso_init] in
          if iso_init_ret env < 0 then Some (126, \<lparr>trace = t2, files = fs\<rparr>)
          else
          let t3 = t2 @ [Ev_iso_image_new ''cidata''];
              image = iso_image_new ''cidata'' in
          if iso_image_new_ret env < 0 \<or> iso_image_new_null env
          then Some (126, \<lparr>trace = t3, files = fs\<rparr>)
          else
          let t4 = t3 @ [Ev_iso_image_set_volume_id ''cidata''];
              image = iso_image_set_volume_id image ''cidata'';
              t5 = t4 @ [Ev_iso_image_get_root] in
          if iso_image_get_root_null env
          then Some (126, \<lparr>trace = t5 @ [Ev_iso_image_unref], files = fs\<rparr>)
          else
          let t6 = t5 @ [Ev_iso_tree_add_new_node ''user-data'' ud] in
          if iso_tree_add_new_node_ret env ''user-data'' ud < 0
          then Some (125, \<lparr>trace = t6 @ [Ev_iso_image_unref], files = fs\<rparr>)
          else
          let image = iso_tree_add_new_node image ''user-data'' ud;
              t7 = t6 @ [Ev_iso_tree_add_new_node ''meta-data'' md] in
          if iso_tree_add_new_node_ret env ''meta-data'' md < 0
          then Some (125, \<lparr>trace = t7 @ [Ev_iso_image_unref], files = fs\<rparr>)
          else
          let image = iso_tree_add_new_node image ''meta-data'' md;
              t8 = t7 @ [Ev_iso_write_opts_new 2];
              opts = iso_write_opts_new 2 in
          if iso_write_opts_new_ret env < 0 \<or> iso_write_opts_new_null env
          then Some (126, \<lparr>trace = t8 @ [Ev_iso_image_unref], files = fs\<rparr>)
          else
          let t9 = t8 @ [Ev_iso_write_opts_set_rockridge 1];
              opts = iso_write_opts_set_rockridge opts 1;
              t10 = t9 @ [Ev_iso_write_opts_set_joliet 1];
              opts = iso_write_opts_set_joliet opts 1;
              t11 = t10 @ [Ev_iso_image_create_burn_source image opts] in
          if iso_image_create_burn_source_ret env < 0 \<or> iso_image_create_burn_source_null env
          then Some (126, \<lparr>trace = t11 @ [Ev_iso_write_opts_free, Ev_iso_image_unref],
                           files = fs\<rparr>)
          else
          let fd = open_ret env;
              t12 = t11 @ [Ev_open out fd] in
          if fd < 0
          then
            let errno = open_errno env;
                errno = set_errno (burn_source_free_errno env) errno;
                errno = set_errno (iso_write_opts_free_errno env) errno;
                errno = set_errno (iso_image_unref_errno env) errno
            in Some (errno, \<lparr>trace = t12 @ [Ev_burn_source_free, Ev_iso_write_opts_free,
                                             Ev_iso_image_unref],
                             files = fs\<rparr>)
          else
            (case write_loop env fd out 0 \<lparr>trace = t12, files = open_trunc fs out\<rparr> of
               None \<Rightarrow> None
             | Some (r, w) \<Rightarrow>
                 Some (if r < 0 then 125 else 0,
                       w\<lparr>trace := trace w @ [Ev_close fd, Ev_burn_source_free,
                                              Ev_iso_write_opts_free, Ev_iso_image_unref]\<rparr>))
      | _ \<Rightarrow> Some (EINVAL, \<lparr>trace = [], files = fs\<rparr>))"

section \<open>Vocabulary of the properties\<close>

subsection \<open>The burn source and the sink, iteration by iteration\<close>

text \<open>
  What the \<open>i\<close>-th read of the burn source returns, and the bytes it delivers: the
  answers of \<^verbatim>\<open>read\<close> when the source has one, those of \<^verbatim>\<open>read_xt\<close> otherwise. Both are
  stated on the environment, not through \<open>burn_read\<close>.
\<close>

definition chunk_of :: "env \<Rightarrow> nat \<Rightarrow> int" where
  "chunk_of env i =
     (if burn_src_has_read env then fst (burn_src_read env i) else fst (burn_src_read_xt env i))"

definition produced :: "env \<Rightarrow> nat \<Rightarrow> byte list" where
  "produced env i =
     (if burn_src_has_read env
      then take (nat (fst (burn_src_read env i))) (snd (burn_src_read env i))
      else take (nat (fst (burn_src_read_xt env i))) (snd (burn_src_read_xt env i)))"

text \<open>Iteration \<open>i\<close> goes round: the read delivered bytes and the write took all of them.\<close>

definition io_ok :: "env \<Rightarrow> nat \<Rightarrow> bool" where
  "io_ok env i \<longleftrightarrow> 0 < chunk_of env i \<and> write_ret env i = chunk_of env i"

text \<open>The world after an iteration that goes round, and after \<open>k\<close> of them from \<open>i\<close> on.\<close>

definition step_ok :: "env \<Rightarrow> int \<Rightarrow> string \<Rightarrow> nat \<Rightarrow> world \<Rightarrow> world" where
  "step_ok env fd path i w =
     \<lparr>trace = trace w @ [Ev_read buffer_size (chunk_of env i),
                          Ev_write fd (produced env i) (chunk_of env i) (chunk_of env i)],
      files = append_file (files w) path (produced env i)\<rparr>"

fun advance :: "env \<Rightarrow> int \<Rightarrow> string \<Rightarrow> nat \<Rightarrow> nat \<Rightarrow> world \<Rightarrow> world" where
  "advance env fd path i 0 w = w"
| "advance env fd path i (Suc k) w = advance env fd path (Suc i) k (step_ok env fd path i w)"

text \<open>The result of the loop when iteration \<open>i\<close> is the one that leaves it.\<close>

definition final :: "env \<Rightarrow> int \<Rightarrow> string \<Rightarrow> nat \<Rightarrow> world \<Rightarrow> int \<times> world" where
  "final env fd path i w =
     (if chunk_of env i < 0
      then (- 1, w\<lparr>trace := trace w @ [Ev_read buffer_size (chunk_of env i)]\<rparr>)
      else if chunk_of env i = 0
      then (0, w\<lparr>trace := trace w @ [Ev_read buffer_size (chunk_of env i)]\<rparr>)
      else (- 1, \<lparr>trace = trace w @ [Ev_read buffer_size (chunk_of env i),
                                     Ev_write fd (produced env i) (chunk_of env i)
                                       (write_ret env i)],
                  files = append_file (files w) path
                            (take (nat (write_ret env i)) (produced env i))\<rparr>))"

subsection \<open>The steps before the output file is opened\<close>

text \<open>
  The checks of the function, in its order; \<open>first_failure\<close> names the first one that
  fails, and is \<open>None\<close> when the function gets as far as opening the output file.
\<close>

datatype stage =
    Library_init | Image_new | Get_root | Add_user_data | Add_meta_data
  | Write_opts_new | Burn_source_new

definition first_failure :: "env \<Rightarrow> string \<Rightarrow> string \<Rightarrow> stage option" where
  "first_failure env ud md =
     (if isoburn_initialize_ret env \<le> 0 \<or> iso_init_ret env < 0 then Some Library_init
      else if iso_image_new_ret env < 0 \<or> iso_image_new_null env then Some Image_new
      else if iso_image_get_root_null env then Some Get_root
      else if iso_tree_add_new_node_ret env ''user-data'' ud < 0 then Some Add_user_data
      else if iso_tree_add_new_node_ret env ''meta-data'' md < 0 then Some Add_meta_data
      else if iso_write_opts_new_ret env < 0 \<or> iso_write_opts_new_null env
      then Some Write_opts_new
      else if iso_image_create_burn_source_ret env < 0 \<or> iso_image_create_burn_source_null env
      then Some Burn_source_new
      else None)"

text \<open>The image and the options the function means to hand to the encoder.\<close>

definition cidata_image :: "string \<Rightarrow> string \<Rightarrow> iso_image" where
  "cidata_image ud md =
     \<lparr>volume_id = ''cidata'', root_nodes = [(''user-data'', ud), (''meta-data'', md)]\<rparr>"

definition cidata_opts :: iso_write_opts where
  "cidata_opts = \<lparr>iso_level = 2, rock_ridge = True, joliet = True\<rparr>"

text \<open>The calls of a setup that went through, and the three release calls.\<close>

definition setup_calls :: "string \<Rightarrow> string \<Rightarrow> event list" where
  "setup_calls ud md =
     [Ev_isoburn_initialize, Ev_iso_init, Ev_iso_image_new ''cidata'',
      Ev_iso_image_set_volume_id ''cidata'', Ev_iso_image_get_root,
      Ev_iso_tree_add_new_node ''user-data'' ud, Ev_iso_tree_add_new_node ''meta-data'' md,
      Ev_iso_write_opts_new 2, Ev_iso_write_opts_set_rockridge 1,
      Ev_iso_write_opts_set_joliet 1,
      Ev_iso_image_create_burn_source (cidata_image ud md) cidata_opts]"

definition release_calls :: "event list" where
  "release_calls = [Ev_burn_source_free, Ev_iso_write_opts_free, Ev_iso_image_unref]"

text \<open>
  What \<^verbatim>\<open>return errno\<close> reads on the path of a failed \<^verbatim>\<open>open\<close>: the statement comes after
  the three release calls.
\<close>

definition errno_at_return :: "env \<Rightarrow> int" where
  "errno_at_return env =
     set_errno (iso_image_unref_errno env)
       (set_errno (iso_write_opts_free_errno env)
          (set_errno (burn_source_free_errno env) (open_errno env)))"

subsection \<open>Runs that open the output file\<close>

text \<open>
  The world right after a successful \<^verbatim>\<open>open\<close>; what the function does with the result of
  the loop (\<^verbatim>\<open>close\<close>, the release calls, \<^verbatim>\<open>if (r < 0) return 125; return 0;\<close>); and the
  result of the run whose loop is left in iteration \<open>n\<close>.
\<close>

definition opened :: "filesystem \<Rightarrow> string \<Rightarrow> string \<Rightarrow> string \<Rightarrow> int \<Rightarrow> world" where
  "opened fs out ud md fd =
     \<lparr>trace = setup_calls ud md @ [Ev_open out fd], files = open_trunc fs out\<rparr>"

definition finish :: "int \<Rightarrow> int \<times> world \<Rightarrow> int \<times> world" where
  "finish fd res =
     (if fst res < 0 then 125 else 0,
      (snd res)\<lparr>trace := trace (snd res) @ Ev_close fd # release_calls\<rparr>)"

definition stopped_at ::
  "env \<Rightarrow> filesystem \<Rightarrow> string \<Rightarrow> string \<Rightarrow> string \<Rightarrow> nat \<Rightarrow> int \<times> world" where
  "stopped_at env fs out ud md n =
     finish (open_ret env)
       (final env (open_ret env) out n
          (advance env (open_ret env) out 0 n (opened fs out ud md (open_ret env))))"

subsection \<open>Traces and files of such runs\<close>

text \<open>
  The events of \<open>k\<close> iterations that go round, from iteration \<open>i\<close> on; the events of the
  iteration \<open>n\<close> that leaves the loop; the bytes of the first \<open>n\<close> chunks, in order.
\<close>

fun ok_events :: "env \<Rightarrow> int \<Rightarrow> nat \<Rightarrow> nat \<Rightarrow> event list" where
  "ok_events env fd i 0 = []"
| "ok_events env fd i (Suc k) =
     Ev_read buffer_size (chunk_of env i) #
     Ev_write fd (produced env i) (chunk_of env i) (chunk_of env i) #
     ok_events env fd (Suc i) k"

definition last_events :: "env \<Rightarrow> int \<Rightarrow> nat \<Rightarrow> event list" where
  "last_events env fd n =
     (if chunk_of env n \<le> 0 then [Ev_read buffer_size (chunk_of env n)]
      else [Ev_read buffer_size (chunk_of env n),
            Ev_write fd (produced env n) (chunk_of env n) (write_ret env n)])"

definition image_bytes :: "env \<Rightarrow> nat \<Rightarrow> byte list" where
  "image_bytes env n = concat (map (produced env) [0..<n])"

text \<open>
  A read or a write; a read or a write that failed (a negative chunk, a write that did not
  return the count it was given); an \<^verbatim>\<open>open\<close>; the descriptors closed, in order.
\<close>

fun is_io :: "event \<Rightarrow> bool" where
  "is_io (Ev_read sz chunk) = True"
| "is_io (Ev_write fd bs cnt n) = True"
| "is_io _ = False"

fun io_failure :: "event \<Rightarrow> bool" where
  "io_failure (Ev_read sz chunk) = (chunk < 0)"
| "io_failure (Ev_write fd bs cnt n) = (n \<noteq> cnt)"
| "io_failure _ = False"

fun is_open :: "event \<Rightarrow> bool" where
  "is_open (Ev_open path fd) = True"
| "is_open _ = False"


text \<open>
  An environment in which \<^verbatim>\<open>errno\<close> is never zero: the failed \<^verbatim>\<open>open\<close> stores an error
  number there, and no release call stores 0. The C library keeps to that; the release
  calls of libburn and libisofs are not bound to.
\<close>

definition errno_never_zero :: "env \<Rightarrow> bool" where
  "errno_never_zero env \<longleftrightarrow>
     open_errno env \<noteq> 0 \<and> burn_source_free_errno env \<noteq> Some 0 \<and>
     iso_write_opts_free_errno env \<noteq> Some 0 \<and> iso_image_unref_errno env \<noteq> Some 0"

text \<open>
  The image is fully written after \<open>n\<close> chunks: the setup went through, the output file
  was opened, \<open>n\<close> chunks were read and written in full, and the next read reported the
  end of the stream.
\<close>

definition fully_written :: "env \<Rightarrow> string \<Rightarrow> string \<Rightarrow> nat \<Rightarrow> bool" where
  "fully_written env ud md n \<longleftrightarrow>
     first_failure env ud md = None \<and> 0 \<le> open_ret env \<and>
     (\<forall>i<n. io_ok env i) \<and> chunk_of env n = 0"

section \<open>Concrete environments\<close>

text \<open>
  An environment in which every call succeeds and the burn source delivers three bytes,
  then two, then the end of the stream; and variations of it.
\<close>

definition fs0 :: filesystem where
  "fs0 = Map.empty"

fun two_chunks :: "nat \<Rightarrow> int \<times> byte list" where
  "two_chunks 0 = (3, [1, 2, 3])"
| "two_chunks (Suc 0) = (2, [4, 5, 3])"
| "two_chunks (Suc (Suc i)) = (0, [4, 5, 3])"

definition full_writes :: "nat \<Rightarrow> int" where
  "full_writes i = fst (two_chunks i)"

definition accept_node :: "string \<Rightarrow> string \<Rightarrow> int" where
  "accept_node name path = 1"

definition env_healthy :: env where
  "env_healthy =
     \<lparr>isoburn_initialize_ret = 1, iso_init_ret = 1,
      iso_image_new_ret = 1, iso_image_new_null = False,
      iso_image_get_root_null = False,
      iso_tree_add_new_node_ret = accept_node,
      iso_write_opts_new_ret = 1, iso_write_opts_new_null = False,
      iso_image_create_burn_source_ret = 1, iso_image_create_burn_source_null = False,
      open_ret = 3, open_errno = 2,
      burn_src_has_read = True, burn_src_read = two_chunks, burn_src_read_xt = two_chunks,
      write_ret = full_writes,
      burn_source_free_errno = None, iso_write_opts_free_errno = None,
      iso_image_unref_errno = None\<rparr>"

definition env_init_fails :: env where
  "env_init_fails = env_healthy\<lparr>isoburn_initialize_ret := 0\<rparr>"

definition refuse_user_data :: "string \<Rightarrow> string \<Rightarrow> int" where
  "refuse_user_data name path = (if name = ''user-data'' then - 1 else 1)"

definition short_writes :: "nat \<Rightarrow> int" where
  "short_writes i = (if i = 0 then 3 else 1)"

definition env_add_fails :: env where
  "env_add_fails = env_healthy\<lparr>iso_tree_add_new_node_ret := refuse_user_data\<rparr>"

definition env_open_fails :: env where
  "env_open_fails = env_healthy\<lparr>open_ret := - 1, open_errno := 13,
                                  burn_source_free_errno := Some 4\<rparr>"

text \<open>
  The same failed \<^verbatim>\<open>open\<close>, and a release call that leaves \<^verbatim>\<open>errno\<close> at 0, as a call
  does that clears \<^verbatim>\<open>errno\<close> before a conversion and meets no error.
\<close>

definition env_open_fails_errno_cleared :: env where
  "env_open_fails_errno_cleared = env_healthy\<lparr>open_ret := - 1, open_errno := 13,
                                                burn_source_free_errno := Some 0\<rparr>"

text \<open>
  A burn source without \<^verbatim>\<open>read\<close>: its \<^verbatim>\<open>read_xt\<close> delivers the two chunks, and the second
  write takes one byte of two. The \<^verbatim>\<open>read\<close> answers are there to be ignored.
\<close>

definition no_read :: "nat \<Rightarrow> int \<times> byte list" where
  "no_read i = (- 1, [])"

definition env_short_write :: env where
  "env_short_write = env_healthy\<lparr>burn_src_has_read := False, burn_src_read := no_read,
                                   write_ret := short_writes\<rparr>"

text \<open>
  The worlds two of these runs end in: the healthy one, and the one whose second write
  takes one byte of two.
\<close>

definition healthy_world :: world where
  "healthy_world =
     \<lparr>trace = setup_calls ''user-data.yaml'' ''meta-data.yaml'' @
              [Ev_open ''seed.iso'' 3,
               Ev_read 2048 3, Ev_write 3 [1, 2, 3] 3 3,
               Ev_read 2048 2, Ev_write 3 [4, 5] 2 2,
               Ev_read 2048 0,
               Ev_close 3, Ev_burn_source_free, Ev_iso_write_opts_free, Ev_iso_image_unref],
      files = fs0(''seed.iso'' \<mapsto> [1, 2, 3, 4, 5])\<rparr>"

definition short_write_world :: world where
  "short_write_world =
     \<lparr>trace = setup_calls ''user-data.yaml'' ''meta-data.yaml'' @
              [Ev_open ''seed.iso'' 3,
               Ev_read 2048 3, Ev_write 3 [1, 2, 3] 3 3,
               Ev_read 2048 2, Ev_write 3 [4, 5] 2 1,
               Ev_close 3, Ev_burn_source_free, Ev_iso_write_opts_free, Ev_iso_image_unref],
      files = fs0(''seed.iso'' \<mapsto> [1, 2, 3, 4])\<rparr>"

section \<open>The write loop, characterised\<close>

lemma write_loop_body:
  "(let chunk = fst (burn_read env i);
        buffer = snd (burn_read env i);
        w1 = w\<lparr>trace := trace w @ [Ev_read buffer_size chunk]\<rparr>
    in if chunk < 0 then Some (- 1, w1)
       else if chunk = 0 then Some (0, w1)
       else
         let n = write_ret env i;
             w2 = \<lparr>trace = trace w1 @ [Ev_write fd (take (nat chunk) buffer) chunk n],
                   files = append_file (files w1) path
                             (take (nat n) (take (nat chunk) buffer))\<rparr>
         in if n \<noteq> chunk then Some (- 1, w2)
            else loop env fd path (Suc i) w2) =
   (if io_ok env i then loop env fd path (Suc i) (step_ok env fd path i w)
    else Some (final env fd path i w))"
  by (simp add: io_ok_def chunk_of_def produced_def burn_read_def step_ok_def final_def Let_def)

lemma write_loop_unfold:
  "write_loop env fd path i w =
   (if io_ok env i then write_loop env fd path (Suc i) (step_ok env fd path i w)
    else Some (final env fd path i w))"
  by (subst write_loop.simps) (rule write_loop_body)

text \<open>Enough iterations that go round, then one that does not: the loop returns.\<close>

lemma write_loop_run:
  "(\<And>j. j < k \<Longrightarrow> io_ok env (i + j)) \<Longrightarrow> \<not> io_ok env (i + k) \<Longrightarrow>
   write_loop env fd path i w = Some (final env fd path (i + k) (advance env fd path i k w))"
proof (induction k arbitrary: i w)
  case 0
  then show ?case by (subst write_loop_unfold) simp
next
  case (Suc k)
  have ok: "io_ok env i" using Suc.prems(1) [of 0] by simp
  have "write_loop env fd path (Suc i) (step_ok env fd path i w) =
        Some (final env fd path (Suc i + k) (advance env fd path (Suc i) k (step_ok env fd path i w)))"
  proof (rule Suc.IH)
    fix j assume "j < k"
    then show "io_ok env (Suc i + j)" using Suc.prems(1) [of "Suc j"] by simp
  next
    show "\<not> io_ok env (Suc i + k)" using Suc.prems(2) by simp
  qed
  then show ?case using ok by (subst write_loop_unfold) simp
qed

text \<open>And the loop returns in no other way.\<close>

lemma write_loop_returns:
  assumes "write_loop env fd path i w = Some res"
  shows "\<exists>k. (\<forall>j<k. io_ok env (i + j)) \<and> \<not> io_ok env (i + k) \<and>
       res = final env fd path (i + k) (advance env fd path i k w)"
proof (rule write_loop.raw_induct [where P = "\<lambda>env fd path i w res.
         \<exists>k. (\<forall>j<k. io_ok env (i + j)) \<and> \<not> io_ok env (i + k) \<and>
             res = final env fd path (i + k) (advance env fd path i k w)", OF _ assms], goal_cases)
  case (1 loop env fd path i w res)
  have body: "(if io_ok env i then loop env fd path (Suc i) (step_ok env fd path i w)
    else Some (final env fd path i w)) = Some res"
    using 1(2) unfolding write_loop_body .
  show ?case
  proof (cases "io_ok env i")
    case False
    then have "res = final env fd path i w"
      using body by simp
    then have "(\<forall>j<0. io_ok env (i + j)) \<and> \<not> io_ok env (i + 0) \<and>
       res = final env fd path (i + 0) (advance env fd path i 0 w)"
      using False by simp
    then show ?thesis by (rule exI)
  next
    case True
    then have "loop env fd path (Suc i) (step_ok env fd path i w) = Some res"
      using body by simp
    from 1(1) [OF this] obtain k where
      kk: "(\<forall>j<k. io_ok env (Suc i + j)) \<and> \<not> io_ok env (Suc i + k) \<and>
         res = final env fd path (Suc i + k) (advance env fd path (Suc i) k (step_ok env fd path i w))"
      ..
    note k = conjunct1 [OF kk] conjunct1 [OF conjunct2 [OF kk]] conjunct2 [OF conjunct2 [OF kk]]
    have "\<forall>j<Suc k. io_ok env (i + j)"
    proof (intro allI impI)
      fix j assume "j < Suc k"
      then show "io_ok env (i + j)" using True k(1) by (cases j) auto
    qed
    moreover have "\<not> io_ok env (i + Suc k)" using k(2) by simp
    moreover have "res = final env fd path (i + Suc k) (advance env fd path i (Suc k) w)"
      using k(3) by simp
    ultimately have "(\<forall>j<Suc k. io_ok env (i + j)) \<and> \<not> io_ok env (i + Suc k) \<and>
       res = final env fd path (i + Suc k) (advance env fd path i (Suc k) w)" by simp
    then show ?thesis by (rule exI)
  qed
qed

section \<open>The driver, path by path\<close>

lemmas libisofs_defs =
  iso_image_new_def iso_image_set_volume_id_def iso_tree_add_new_node_def
  iso_write_opts_new_def iso_write_opts_set_rockridge_def iso_write_opts_set_joliet_def

lemma zm_geniso_null:
  "output = None \<or> user_data = None \<or> meta_data = None \<Longrightarrow>
   zm_geniso env fs output user_data meta_data = Some (EINVAL, \<lparr>trace = [], files = fs\<rparr>)"
  by (auto simp add: zm_geniso_def split: option.splits)

lemma fail_isoburn_initialize:
  "isoburn_initialize_ret env \<le> 0 \<Longrightarrow>
   zm_geniso env fs (Some out) (Some ud) (Some md) =
     Some (126, \<lparr>trace = [Ev_isoburn_initialize], files = fs\<rparr>)"
  by (simp add: zm_geniso_def)

lemma fail_iso_init:
  "\<not> isoburn_initialize_ret env \<le> 0 \<Longrightarrow> iso_init_ret env < 0 \<Longrightarrow>
   zm_geniso env fs (Some out) (Some ud) (Some md) =
     Some (126, \<lparr>trace = [Ev_isoburn_initialize, Ev_iso_init], files = fs\<rparr>)"
  by (simp add: zm_geniso_def)

lemma fail_iso_image_new:
  "\<not> isoburn_initialize_ret env \<le> 0 \<Longrightarrow> \<not> iso_init_ret env < 0 \<Longrightarrow>
   iso_image_new_ret env < 0 \<or> iso_image_new_null env \<Longrightarrow>
   zm_geniso env fs (Some out) (Some ud) (Some md) =
     Some (126, \<lparr>trace = [Ev_isoburn_initialize, Ev_iso_init, Ev_iso_image_new ''cidata''],
                 files = fs\<rparr>)"
  by (simp add: zm_geniso_def)

lemma fail_iso_image_get_root:
  "\<not> isoburn_initialize_ret env \<le> 0 \<Longrightarrow> \<not> iso_init_ret env < 0 \<Longrightarrow>
   \<not> (iso_image_new_ret env < 0 \<or> iso_image_new_null env) \<Longrightarrow>
   iso_image_get_root_null env \<Longrightarrow>
   zm_geniso env fs (Some out) (Some ud) (Some md) =
     Some (126, \<lparr>trace = [Ev_isoburn_initialize, Ev_iso_init, Ev_iso_image_new ''cidata'',
                          Ev_iso_image_set_volume_id ''cidata'', Ev_iso_image_get_root,
                          Ev_iso_image_unref],
                 files = fs\<rparr>)"
  by (simp add: zm_geniso_def)

lemma fail_add_user_data:
  "\<not> isoburn_initialize_ret env \<le> 0 \<Longrightarrow> \<not> iso_init_ret env < 0 \<Longrightarrow>
   \<not> (iso_image_new_ret env < 0 \<or> iso_image_new_null env) \<Longrightarrow>
   \<not> iso_image_get_root_null env \<Longrightarrow>
   iso_tree_add_new_node_ret env ''user-data'' ud < 0 \<Longrightarrow>
   zm_geniso env fs (Some out) (Some ud) (Some md) =
     Some (125, \<lparr>trace = [Ev_isoburn_initialize, Ev_iso_init, Ev_iso_image_new ''cidata'',
                          Ev_iso_image_set_volume_id ''cidata'', Ev_iso_image_get_root,
                          Ev_iso_tree_add_new_node ''user-data'' ud, Ev_iso_image_unref],
                 files = fs\<rparr>)"
  by (simp add: zm_geniso_def)

lemma fail_add_meta_data:
  "\<not> isoburn_initialize_ret env \<le> 0 \<Longrightarrow> \<not> iso_init_ret env < 0 \<Longrightarrow>
   \<not> (iso_image_new_ret env < 0 \<or> iso_image_new_null env) \<Longrightarrow>
   \<not> iso_image_get_root_null env \<Longrightarrow>
   \<not> iso_tree_add_new_node_ret env ''user-data'' ud < 0 \<Longrightarrow>
   iso_tree_add_new_node_ret env ''meta-data'' md < 0 \<Longrightarrow>
   zm_geniso env fs (Some out) (Some ud) (Some md) =
     Some (125, \<lparr>trace = [Ev_isoburn_initialize, Ev_iso_init, Ev_iso_image_new ''cidata'',
                          Ev_iso_image_set_volume_id ''cidata'', Ev_iso_image_get_root,
                          Ev_iso_tree_add_new_node ''user-data'' ud,
                          Ev_iso_tree_add_new_node ''meta-data'' md, Ev_iso_image_unref],
                 files = fs\<rparr>)"
  by (simp add: zm_geniso_def)

lemma fail_iso_write_opts_new:
  "\<not> isoburn_initialize_ret env \<le> 0 \<Longrightarrow> \<not> iso_init_ret env < 0 \<Longrightarrow>
   \<not> (iso_image_new_ret env < 0 \<or> iso_image_new_null env) \<Longrightarrow>
   \<not> iso_image_get_root_null env \<Longrightarrow>
   \<not> iso_tree_add_new_node_ret env ''user-data'' ud < 0 \<Longrightarrow>
   \<not> iso_tree_add_new_node_ret env ''meta-data'' md < 0 \<Longrightarrow>
   iso_write_opts_new_ret env < 0 \<or> iso_write_opts_new_null env \<Longrightarrow>
   zm_geniso env fs (Some out) (Some ud) (Some md) =
     Some (126, \<lparr>trace = [Ev_isoburn_initialize, Ev_iso_init, Ev_iso_image_new ''cidata'',
                          Ev_iso_image_set_volume_id ''cidata'', Ev_iso_image_get_root,
                          Ev_iso_tree_add_new_node ''user-data'' ud,
                          Ev_iso_tree_add_new_node ''meta-data'' md,
                          Ev_iso_write_opts_new 2, Ev_iso_image_unref],
                 files = fs\<rparr>)"
  by (simp add: zm_geniso_def)

lemma fail_create_burn_source:
  "\<not> isoburn_initialize_ret env \<le> 0 \<Longrightarrow> \<not> iso_init_ret env < 0 \<Longrightarrow>
   \<not> (iso_image_new_ret env < 0 \<or> iso_image_new_null env) \<Longrightarrow>
   \<not> iso_image_get_root_null env \<Longrightarrow>
   \<not> iso_tree_add_new_node_ret env ''user-data'' ud < 0 \<Longrightarrow>
   \<not> iso_tree_add_new_node_ret env ''meta-data'' md < 0 \<Longrightarrow>
   \<not> (iso_write_opts_new_ret env < 0 \<or> iso_write_opts_new_null env) \<Longrightarrow>
   iso_image_create_burn_source_ret env < 0 \<or> iso_image_create_burn_source_null env \<Longrightarrow>
   zm_geniso env fs (Some out) (Some ud) (Some md) =
     Some (126, \<lparr>trace = setup_calls ud md @ [Ev_iso_write_opts_free, Ev_iso_image_unref],
                 files = fs\<rparr>)"
  by (simp add: zm_geniso_def setup_calls_def cidata_image_def cidata_opts_def libisofs_defs)

lemma setup_succeeds:
  "first_failure env ud md = None \<Longrightarrow>
   \<not> isoburn_initialize_ret env \<le> 0 \<and> \<not> iso_init_ret env < 0 \<and>
   \<not> (iso_image_new_ret env < 0 \<or> iso_image_new_null env) \<and>
   \<not> iso_image_get_root_null env \<and>
   \<not> iso_tree_add_new_node_ret env ''user-data'' ud < 0 \<and>
   \<not> iso_tree_add_new_node_ret env ''meta-data'' md < 0 \<and>
   \<not> (iso_write_opts_new_ret env < 0 \<or> iso_write_opts_new_null env) \<and>
   \<not> (iso_image_create_burn_source_ret env < 0 \<or> iso_image_create_burn_source_null env)"
  by (simp add: first_failure_def split: if_splits)

lemma zm_geniso_setup_failure:
  assumes "first_failure env ud md = Some s"
  shows "\<exists>tr. zm_geniso env fs (Some out) (Some ud) (Some md) =
          Some (if s = Add_user_data \<or> s = Add_meta_data then 125 else 126,
                \<lparr>trace = tr, files = fs\<rparr>) \<and>
        set tr \<subseteq> set (setup_calls ud md) \<union> set release_calls"
proof (cases s)
  case Library_init
  then have "isoburn_initialize_ret env \<le> 0 \<or>
             (\<not> isoburn_initialize_ret env \<le> 0 \<and> iso_init_ret env < 0)"
    using assms by (auto simp add: first_failure_def split: if_splits)
  then show ?thesis using Library_init
    by (auto simp add: fail_isoburn_initialize fail_iso_init setup_calls_def)
next
  case Image_new
  then show ?thesis using assms
    by (simp add: first_failure_def fail_iso_image_new setup_calls_def split: if_splits)
next
  case Get_root
  then show ?thesis using assms
    by (simp add: first_failure_def fail_iso_image_get_root setup_calls_def release_calls_def
          split: if_splits)
next
  case Add_user_data
  then show ?thesis using assms
    by (simp add: first_failure_def fail_add_user_data setup_calls_def release_calls_def
          split: if_splits)
next
  case Add_meta_data
  then show ?thesis using assms
    by (simp add: first_failure_def fail_add_meta_data setup_calls_def release_calls_def
          split: if_splits)
next
  case Write_opts_new
  then show ?thesis using assms
    by (simp add: first_failure_def fail_iso_write_opts_new setup_calls_def release_calls_def
          split: if_splits)
next
  case Burn_source_new
  then show ?thesis using assms
    by (auto simp add: first_failure_def fail_create_burn_source release_calls_def
          split: if_splits)
qed

lemma zm_geniso_open_failure:
  "first_failure env ud md = None \<Longrightarrow> open_ret env < 0 \<Longrightarrow>
   zm_geniso env fs (Some out) (Some ud) (Some md) =
     Some (errno_at_return env,
           \<lparr>trace = setup_calls ud md @ Ev_open out (open_ret env) # release_calls,
            files = fs\<rparr>)"
  using setup_succeeds [of env ud md]
  by (simp add: zm_geniso_def setup_calls_def release_calls_def
       cidata_image_def cidata_opts_def errno_at_return_def libisofs_defs)

lemma zm_geniso_opened:
  "first_failure env ud md = None \<Longrightarrow> 0 \<le> open_ret env \<Longrightarrow>
   zm_geniso env fs (Some out) (Some ud) (Some md) =
     map_option (finish (open_ret env))
       (write_loop env (open_ret env) out 0 (opened fs out ud md (open_ret env)))"
  using setup_succeeds [of env ud md]
  by (simp add: zm_geniso_def setup_calls_def release_calls_def finish_def
       cidata_image_def cidata_opts_def opened_def libisofs_defs Let_def split: option.splits)

lemma zm_geniso_opened_iff:
  assumes "first_failure env ud md = None" and "0 \<le> open_ret env"
  shows "zm_geniso env fs (Some out) (Some ud) (Some md) = Some res \<longleftrightarrow>
         (\<exists>n. (\<forall>i<n. io_ok env i) \<and> \<not> io_ok env n \<and> res = stopped_at env fs out ud md n)"
proof
  assume "zm_geniso env fs (Some out) (Some ud) (Some md) = Some res"
  then obtain lr where
    lr: "write_loop env (open_ret env) out 0 (opened fs out ud md (open_ret env)) = Some lr"
    and res: "res = finish (open_ret env) lr"
    unfolding zm_geniso_opened [OF assms] by auto
  from write_loop_returns [OF lr] obtain k where
    kk: "(\<forall>j<k. io_ok env (0 + j)) \<and> \<not> io_ok env (0 + k) \<and>
        lr = final env (open_ret env) out (0 + k)
               (advance env (open_ret env) out 0 k (opened fs out ud md (open_ret env)))"
    ..
  then have "(\<forall>i<k. io_ok env i) \<and> \<not> io_ok env k \<and> res = stopped_at env fs out ud md k"
    using res by (simp add: stopped_at_def)
  then show "\<exists>n. (\<forall>i<n. io_ok env i) \<and> \<not> io_ok env n \<and> res = stopped_at env fs out ud md n"
    by (rule exI)
next
  assume "\<exists>n. (\<forall>i<n. io_ok env i) \<and> \<not> io_ok env n \<and> res = stopped_at env fs out ud md n"
  then obtain n where n: "\<forall>i<n. io_ok env i" "\<not> io_ok env n"
      "res = stopped_at env fs out ud md n"
    by auto
  have "write_loop env (open_ret env) out 0 (opened fs out ud md (open_ret env)) =
        Some (final env (open_ret env) out (0 + n)
               (advance env (open_ret env) out 0 n (opened fs out ud md (open_ret env))))"
    by (rule write_loop_run) (use n in simp_all)
  then show "zm_geniso env fs (Some out) (Some ud) (Some md) = Some res"
    unfolding zm_geniso_opened [OF assms] using n(3) by (simp add: stopped_at_def)
qed

lemma trace_advance:
  "trace (advance env fd path i k w) = trace w @ ok_events env fd i k"
  by (induction k arbitrary: i w) (simp_all add: step_ok_def)

lemma files_advance:
  "files w path = Some old \<Longrightarrow>
   files (advance env fd path i k w) =
     (files w)(path \<mapsto> old @ concat (map (produced env) [i..<i + k]))"
proof (induction k arbitrary: i w old)
  case 0
  then show ?case by (simp add: fun_upd_idem)
next
  case (Suc k)
  have step: "files (step_ok env fd path i w) = (files w)(path \<mapsto> old @ produced env i)"
    using Suc.prems by (simp add: step_ok_def append_file_def)
  then have "files (step_ok env fd path i w) path = Some (old @ produced env i)"
    by simp
  from Suc.IH [OF this, of "Suc i"]
  have IH: "files (advance env fd path (Suc i) k (step_ok env fd path i w)) =
            (files w)(path \<mapsto> old @ produced env i @
                               concat (map (produced env) [Suc i..<Suc i + k]))"
    unfolding step by (simp only: fun_upd_upd append_assoc)
  have "i < i + Suc k" by simp
  from upt_conv_Cons [OF this]
  have u: "[i..<i + Suc k] = i # [Suc i..<Suc i + k]" by (simp del: upt_Suc)
  show ?case unfolding u using IH by (simp only: advance.simps list.map concat.simps)
qed

lemma stopped_at_code:
  "fst (stopped_at env fs out ud md n) = (if chunk_of env n = 0 then 0 else 125)"
  by (simp add: stopped_at_def finish_def final_def)

lemma stopped_at_trace:
  "trace (snd (stopped_at env fs out ud md n)) =
     setup_calls ud md @ Ev_open out (open_ret env) # ok_events env (open_ret env) 0 n @
     last_events env (open_ret env) n @ Ev_close (open_ret env) # release_calls"
  by (simp add: stopped_at_def finish_def final_def last_events_def trace_advance opened_def)

lemma files_opened_advance:
  "files (advance env fd out 0 n (opened fs out ud md fd)) = fs(out \<mapsto> image_bytes env n)"
proof -
  have "files (opened fs out ud md fd) out = Some []"
    by (simp add: opened_def open_trunc_def)
  from files_advance [OF this, of env fd 0 n]
  show ?thesis by (simp add: image_bytes_def opened_def open_trunc_def)
qed

lemma stopped_at_files:
  "files (snd (stopped_at env fs out ud md n)) =
     (if chunk_of env n \<le> 0 then fs(out \<mapsto> image_bytes env n)
      else fs(out \<mapsto> image_bytes env n @ take (nat (write_ret env n)) (produced env n)))"
  by (simp add: stopped_at_def finish_def final_def files_opened_advance append_file_def)

lemma errno_at_return_nonzero:
  "errno_never_zero env \<Longrightarrow> errno_at_return env \<noteq> 0"
  by (auto simp add: errno_never_zero_def errno_at_return_def set_errno_def split: option.splits)

lemma zm_geniso_cases:
  assumes "zm_geniso env fs (Some out) (Some ud) (Some md) = Some (rc, w)"
  shows "(\<exists>s. first_failure env ud md = Some s \<and>
              rc = (if s = Add_user_data \<or> s = Add_meta_data then 125 else 126) \<and>
              set (trace w) \<subseteq> set (setup_calls ud md) \<union> set release_calls \<and>
              files w = fs) \<or>
         (first_failure env ud md = None \<and> open_ret env < 0 \<and> rc = errno_at_return env \<and>
              trace w = setup_calls ud md @ Ev_open out (open_ret env) # release_calls \<and>
              files w = fs) \<or>
         (first_failure env ud md = None \<and> 0 \<le> open_ret env \<and>
              (\<exists>n. (\<forall>i<n. io_ok env i) \<and> \<not> io_ok env n \<and>
                   (rc, w) = stopped_at env fs out ud md n))"
proof (cases "first_failure env ud md")
  case (Some s)
  from zm_geniso_setup_failure [OF Some, of fs out] assms
  show ?thesis using Some by auto
next
  case None
  show ?thesis
  proof (cases "open_ret env < 0")
    case True
    from zm_geniso_open_failure [OF None True, of fs out] assms
    show ?thesis using None True by auto
  next
    case False
    then have ok: "0 \<le> open_ret env" by simp
    from assms zm_geniso_opened_iff [OF None ok, of fs out "(rc, w)"]
    show ?thesis using None ok by simp
  qed
qed

section \<open>Traces and files of the runs\<close>

lemma ok_events_io: "x \<in> set (ok_events env fd i k) \<Longrightarrow> is_io x"
  by (induction k arbitrary: i) auto

lemma ok_events_no_failure:
  "(\<And>j. j < k \<Longrightarrow> io_ok env (i + j)) \<Longrightarrow> x \<in> set (ok_events env fd i k) \<Longrightarrow> \<not> io_failure x"
proof (induction k arbitrary: i)
  case 0
  then show ?case by simp
next
  case (Suc k)
  have i: "io_ok env i" using Suc.prems(1) [of 0] by simp
  have rest: "\<And>j. j < k \<Longrightarrow> io_ok env (Suc i + j)"
    using Suc.prems(1) by (metis Suc_less_eq add_Suc_shift)
  from Suc.prems(2) consider
      "x = Ev_read buffer_size (chunk_of env i)"
    | "x = Ev_write fd (produced env i) (chunk_of env i) (chunk_of env i)"
    | "x \<in> set (ok_events env fd (Suc i) k)"
    by auto
  then show ?case
  proof cases
    case 1
    then show ?thesis using i by (simp add: io_ok_def)
  next
    case 2
    then show ?thesis by simp
  next
    case 3
    then show ?thesis using Suc.IH [OF rest] by simp
  qed
qed

lemma last_events_io: "x \<in> set (last_events env fd n) \<Longrightarrow> is_io x"
  by (auto simp add: last_events_def split: if_splits)

lemma last_events_failure:
  "\<not> io_ok env n \<Longrightarrow> chunk_of env n \<noteq> 0 \<Longrightarrow> io_failure (last (last_events env fd n))"
  by (auto simp add: last_events_def io_ok_def)

lemma last_events_eos:
  "chunk_of env n = 0 \<Longrightarrow> x \<in> set (last_events env fd n) \<Longrightarrow> \<not> io_failure x"
  by (simp add: last_events_def)

lemma last_events_front:
  "x \<in> set (butlast (last_events env fd n)) \<Longrightarrow> \<not> io_failure x"
  by (auto simp add: last_events_def split: if_splits)

lemma last_events_nonempty: "last_events env fd n \<noteq> []"
  by (simp add: last_events_def)

lemma setup_calls_plain:
  "x \<in> set (setup_calls ud md) \<Longrightarrow> \<not> is_io x \<and> \<not> is_open x \<and> \<not> io_failure x"
  by (auto simp add: setup_calls_def)

lemma release_calls_plain:
  "x \<in> set release_calls \<Longrightarrow> \<not> is_io x \<and> \<not> is_open x \<and> \<not> io_failure x"
  by (auto simp add: release_calls_def)





lemma failure_is_io: "io_failure x \<Longrightarrow> is_io x"
  by (cases x) simp_all

text \<open>Where a failed read or write can stand in a list that ends as the runs do.\<close>

lemma failure_is_last:
  assumes eq: "xs @ f # ys = pre @ e # post"
    and e: "io_failure e"
    and clean: "\<And>x. x \<in> set xs \<Longrightarrow> \<not> io_failure x"
    and quiet: "\<And>x. x \<in> set ys \<Longrightarrow> \<not> is_io x"
  shows "post = ys"
proof -
  from eq consider us where "xs = pre @ us" "us @ f # ys = e # post"
    | us where "xs @ us = pre" "f # ys = us @ e # post"
    by (auto simp add: append_eq_append_conv2)
  then show ?thesis
  proof cases
    case 1
    show ?thesis
    proof (cases us)
      case Nil
      then show ?thesis using 1 by simp
    next
      case (Cons u us')
      then have "e \<in> set xs" using 1 by simp
      then show ?thesis using clean e by blast
    qed
  next
    case 2
    show ?thesis
    proof (cases us)
      case Nil
      then show ?thesis using 2 by simp
    next
      case (Cons u us')
      then have "e \<in> set ys" using 2 by auto
      then show ?thesis using quiet failure_is_io [OF e] by blast
    qed
  qed
qed

lemma stopped_at_shape:
  "trace (snd (stopped_at env fs out ud md n)) =
     (setup_calls ud md @ Ev_open out (open_ret env) # ok_events env (open_ret env) 0 n @
        butlast (last_events env (open_ret env) n)) @
     last (last_events env (open_ret env) n) # Ev_close (open_ret env) # release_calls"
proof -
  have "last_events env (open_ret env) n =
        butlast (last_events env (open_ret env) n) @ [last (last_events env (open_ret env) n)]"
    using last_events_nonempty by simp
  then have "last_events env (open_ret env) n @ Ev_close (open_ret env) # release_calls =
        butlast (last_events env (open_ret env) n) @
        last (last_events env (open_ret env) n) # Ev_close (open_ret env) # release_calls"
    by (metis append_Cons append_Nil append_assoc)
  then show ?thesis unfolding stopped_at_trace by simp
qed

lemma stopped_at_clean_front:
  assumes ok: "\<forall>i<n. io_ok env i"
    and x: "x \<in> set (setup_calls ud md @ Ev_open out (open_ret env) #
                      ok_events env (open_ret env) 0 n @
                      butlast (last_events env (open_ret env) n))"
  shows "\<not> io_failure x"
proof -
  from x consider "x \<in> set (setup_calls ud md)" | "x = Ev_open out (open_ret env)"
    | "x \<in> set (ok_events env (open_ret env) 0 n)"
    | "x \<in> set (butlast (last_events env (open_ret env) n))"
    by auto
  then show ?thesis
  proof cases
    case 1
    then show ?thesis using setup_calls_plain by blast
  next
    case 2
    then show ?thesis by simp
  next
    case 3
    have "\<And>j. j < n \<Longrightarrow> io_ok env (0 + j)" using ok by simp
    from ok_events_no_failure [OF this 3] show ?thesis .
  next
    case 4
    then show ?thesis by (rule last_events_front)
  qed
qed

lemma stopped_at_quiet_back:
  "x \<in> set (Ev_close fd # release_calls) \<Longrightarrow> \<not> is_io x"
  by (auto simp add: release_calls_def)

lemma stopped_at_failure_code:
  assumes ok: "\<forall>i<n. io_ok env i"
    and e: "e \<in> set (trace (snd (stopped_at env fs out ud md n)))" "io_failure e"
  shows "fst (stopped_at env fs out ud md n) = 125"
proof -
  have "chunk_of env n \<noteq> 0"
  proof
    assume eos: "chunk_of env n = 0"
    from e(1) consider "e \<in> set (setup_calls ud md)" | "e = Ev_open out (open_ret env)"
      | "e \<in> set (ok_events env (open_ret env) 0 n)"
      | "e \<in> set (last_events env (open_ret env) n)"
      | "e \<in> set (Ev_close (open_ret env) # release_calls)"
      unfolding stopped_at_trace by auto
    then show False
    proof cases
      case 1
      then show ?thesis using setup_calls_plain e(2) by blast
    next
      case 2
      then show ?thesis using e(2) by simp
    next
      case 3
      have "\<And>j. j < n \<Longrightarrow> io_ok env (0 + j)" using ok by simp
      from ok_events_no_failure [OF this 3] show ?thesis using e(2) by simp
    next
      case 4
      from last_events_eos [OF eos 4] show ?thesis using e(2) by simp
    next
      case 5
      from stopped_at_quiet_back [OF 5] show ?thesis using failure_is_io [OF e(2)] by simp
    qed
  qed
  then show ?thesis by (simp add: stopped_at_code)
qed



section \<open>After a failed read or write\<close>

lemma nothing_after_io_failure:
  assumes run: "zm_geniso env fs output user_data meta_data = Some (rc, w)"
    and split: "trace w = pre @ e # post"
    and fail: "io_failure e"
  shows "rc = 125 \<and> (\<forall>x\<in>set post. \<not> is_io x)"
proof (cases "output = None \<or> user_data = None \<or> meta_data = None")
  case True
  from zm_geniso_null [OF True, of env fs] run have "trace w = []" by auto
  then show ?thesis using split by simp
next
  case False
  then obtain out ud md where args: "output = Some out" "user_data = Some ud" "meta_data = Some md"
    by auto
  from split have mem: "e \<in> set (trace w)" by simp
  from zm_geniso_cases [OF run [unfolded args]]
  consider
    (early) "set (trace w) \<subseteq> set (setup_calls ud md) \<union> set release_calls"
  | (noopen) "trace w = setup_calls ud md @ Ev_open out (open_ret env) # release_calls"
  | (opened) n where "\<forall>i<n. io_ok env i" "(rc, w) = stopped_at env fs out ud md n"
    by blast
  then show ?thesis
  proof cases
    case early
    with mem have "e \<in> set (setup_calls ud md) \<or> e \<in> set release_calls" by auto
    then show ?thesis using setup_calls_plain release_calls_plain fail by blast
  next
    case noopen
    then have "e \<in> set (setup_calls ud md) \<or> e = Ev_open out (open_ret env) \<or>
               e \<in> set release_calls"
      using mem by auto
    then show ?thesis using setup_calls_plain release_calls_plain fail by auto
  next
    case opened
    from opened(2) have rc: "rc = fst (stopped_at env fs out ud md n)"
      and w: "w = snd (stopped_at env fs out ud md n)"
      by (metis fst_conv, metis snd_conv)
    have "rc = 125"
      unfolding rc using opened(1) mem fail unfolding w by (rule stopped_at_failure_code)
    moreover have "post = Ev_close (open_ret env) # release_calls"
    proof (rule failure_is_last [OF _ fail])
      show "(setup_calls ud md @ Ev_open out (open_ret env) #
               ok_events env (open_ret env) 0 n @
               butlast (last_events env (open_ret env) n)) @
            last (last_events env (open_ret env) n) # Ev_close (open_ret env) # release_calls =
            pre @ e # post"
        using split unfolding w stopped_at_shape by simp
    next
      fix x
      assume "x \<in> set (setup_calls ud md @ Ev_open out (open_ret env) #
                         ok_events env (open_ret env) 0 n @
                         butlast (last_events env (open_ret env) n))"
      with opened(1) show "\<not> io_failure x" by (rule stopped_at_clean_front)
    next
      fix x
      assume "x \<in> set (Ev_close (open_ret env) # release_calls)"
      then show "\<not> is_io x" by (rule stopped_at_quiet_back)
    qed
    ultimately show ?thesis using stopped_at_quiet_back by blast
  qed
qed

section \<open>What the encoder is given\<close>

lemma setup_calls_encoder:
  "Ev_iso_image_create_burn_source img opts \<in> set (setup_calls ud md) \<Longrightarrow>
   img = cidata_image ud md \<and> opts = cidata_opts"
  by (simp add: setup_calls_def)

lemma encoder_in_setup_calls:
  "Ev_iso_image_create_burn_source (cidata_image ud md) cidata_opts \<in> set (setup_calls ud md)"
  by (simp add: setup_calls_def)

lemma encoder_call:
  assumes run: "zm_geniso env fs (Some out) (Some ud) (Some md) = Some (rc, w)"
    and mem: "Ev_iso_image_create_burn_source img opts \<in> set (trace w)"
  shows "img = cidata_image ud md \<and> opts = cidata_opts"
proof -
  have "Ev_iso_image_create_burn_source img opts \<in> set (setup_calls ud md)"
    using zm_geniso_cases [OF run]
  proof (elim disjE exE conjE, goal_cases)
    case (1 s)
    with mem have "Ev_iso_image_create_burn_source img opts \<in> set (setup_calls ud md) \<or>
                   Ev_iso_image_create_burn_source img opts \<in> set release_calls"
      by auto
    then show ?case by (simp add: release_calls_def)
  next
    case 2
    with mem show ?case by (simp add: release_calls_def)
  next
    case (3 n)
    then have w: "w = snd (stopped_at env fs out ud md n)" by (metis snd_conv)
    from mem consider "Ev_iso_image_create_burn_source img opts \<in> set (setup_calls ud md)"
      | "Ev_iso_image_create_burn_source img opts \<in> set (ok_events env (open_ret env) 0 n)"
      | "Ev_iso_image_create_burn_source img opts \<in> set (last_events env (open_ret env) n)"
      | "Ev_iso_image_create_burn_source img opts \<in> set (Ev_close (open_ret env) # release_calls)"
      unfolding w stopped_at_trace by auto
    then show ?case
    proof cases
      case 1
      then show ?thesis .
    next
      case 2
      from ok_events_io [OF 2] show ?thesis by simp
    next
      case 3
      from last_events_io [OF 3] show ?thesis by simp
    next
      case 4
      then show ?thesis by (simp add: release_calls_def)
    qed
  qed
  then show ?thesis by (rule setup_calls_encoder)
qed

lemma encoder_called_before_open:
  assumes run: "zm_geniso env fs (Some out) (Some ud) (Some md) = Some (rc, w)"
    and op: "Ev_open path fd \<in> set (trace w)"
  shows "Ev_iso_image_create_burn_source (cidata_image ud md) cidata_opts \<in> set (trace w)"
  using zm_geniso_cases [OF run]
proof (elim disjE exE conjE, goal_cases)
  case (1 s)
  with op have "Ev_open path fd \<in> set (setup_calls ud md) \<or> Ev_open path fd \<in> set release_calls"
    by auto
  then show ?case using setup_calls_plain release_calls_plain by fastforce
next
  case 2
  then show ?case using encoder_in_setup_calls by simp
next
  case (3 n)
  then have w: "w = snd (stopped_at env fs out ud md n)" by (metis snd_conv)
  show ?case unfolding w stopped_at_trace using encoder_in_setup_calls by simp
qed

section \<open>The failed open\<close>

text \<open>
  When the three release calls leave \<^verbatim>\<open>errno\<close> alone, the function returns what the
  failed \<^verbatim>\<open>open\<close> stored there.
\<close>

lemma zm_geniso_open_failure_errno_kept:
  assumes "first_failure env ud md = None" and "open_ret env < 0"
    and "burn_source_free_errno env = None" and "iso_write_opts_free_errno env = None"
    and "iso_image_unref_errno env = None"
  shows "\<exists>w. zm_geniso env fs (Some out) (Some ud) (Some md) = Some (open_errno env, w)"
  using assms by (simp add: zm_geniso_open_failure errno_at_return_def set_errno_def)

section \<open>A return of 0\<close>

text \<open>
  Where \<^verbatim>\<open>errno\<close> is never zero, the function returns 0 exactly when the image is fully
  written: a return of 0 means that for some \<open>n\<close> the image was fully written after \<open>n\<close>
  chunks and the output file holds the bytes of those chunks, in order, and nothing else;
  and an environment that lets the image be fully written after \<open>n\<close> chunks makes the
  function return, with 0 and that file.
\<close>

lemma zero_iff_fully_written_unless_errno_zero:
  assumes "errno_never_zero env"
  shows "(zm_geniso env fs (Some out) (Some ud) (Some md) = Some (0, w) \<longrightarrow>
            (\<exists>n. fully_written env ud md n \<and> files w = fs(out \<mapsto> image_bytes env n))) \<and>
         (fully_written env ud md n \<longrightarrow>
            (\<exists>w'. zm_geniso env fs (Some out) (Some ud) (Some md) = Some (0, w') \<and>
                  files w' = fs(out \<mapsto> image_bytes env n)))"
proof (intro conjI impI)
  assume run: "zm_geniso env fs (Some out) (Some ud) (Some md) = Some (0, w)"
  from zm_geniso_cases [OF run] errno_at_return_nonzero [OF assms]
  obtain k where k: "first_failure env ud md = None" "0 \<le> open_ret env"
      "\<forall>i<k. io_ok env i" "(0, w) = stopped_at env fs out ud md k"
    by (auto split: if_splits)
  from k(4) have code: "fst (stopped_at env fs out ud md k) = 0"
    and w: "w = snd (stopped_at env fs out ud md k)"
    by (metis fst_conv, metis snd_conv)
  from code have eos: "chunk_of env k = 0"
    by (simp add: stopped_at_code split: if_splits)
  have "files w = fs(out \<mapsto> image_bytes env k)"
    unfolding w using eos by (simp add: stopped_at_files)
  then have "fully_written env ud md k \<and> files w = fs(out \<mapsto> image_bytes env k)"
    using k eos by (simp add: fully_written_def)
  then show "\<exists>n. fully_written env ud md n \<and> files w = fs(out \<mapsto> image_bytes env n)"
    by (rule exI)
next
  assume fw: "fully_written env ud md n"
  then have ff: "first_failure env ud md = None" and op: "0 \<le> open_ret env"
    and ok: "\<forall>i<n. io_ok env i" and eos: "chunk_of env n = 0"
    by (simp_all add: fully_written_def)
  from eos have stop: "\<not> io_ok env n" by (simp add: io_ok_def)
  have "zm_geniso env fs (Some out) (Some ud) (Some md) = Some (stopped_at env fs out ud md n)"
    unfolding zm_geniso_opened_iff [OF ff op] using ok stop by blast
  moreover have "fst (stopped_at env fs out ud md n) = 0"
    using eos by (simp add: stopped_at_code)
  moreover have "files (snd (stopped_at env fs out ud md n)) = fs(out \<mapsto> image_bytes env n)"
    using eos by (simp add: stopped_at_files)
  ultimately have "zm_geniso env fs (Some out) (Some ud) (Some md) =
                     Some (0, snd (stopped_at env fs out ud md n)) \<and>
                   files (snd (stopped_at env fs out ud md n)) = fs(out \<mapsto> image_bytes env n)"
    by (metis prod.collapse)
  then show "\<exists>w'. zm_geniso env fs (Some out) (Some ud) (Some md) = Some (0, w') \<and>
                  files w' = fs(out \<mapsto> image_bytes env n)"
    by (rule exI)
qed

section \<open>The concrete runs\<close>

lemma healthy_facts:
  "errno_never_zero env_healthy"
  "first_failure env_healthy ud md = None"
  "chunk_of env_healthy 0 = 3" "chunk_of env_healthy (Suc 0) = 2"
  "chunk_of env_healthy (Suc (Suc 0)) = 0"
  "io_ok env_healthy 0" "io_ok env_healthy (Suc 0)" "\<not> io_ok env_healthy (Suc (Suc 0))"
  "produced env_healthy 0 = [1, 2, 3]" "produced env_healthy (Suc 0) = [4, 5]"
  "open_ret env_healthy = 3"
  by (simp_all add: errno_never_zero_def first_failure_def env_healthy_def accept_node_def
        chunk_of_def io_ok_def produced_def burn_read_def full_writes_def)

lemma healthy_stopped:
  "stopped_at env_healthy fs0 ''seed.iso'' ''user-data.yaml'' ''meta-data.yaml'' 2 =
     (0, healthy_world)"
proof (rule prod_eqI)
  show "fst (stopped_at env_healthy fs0 ''seed.iso'' ''user-data.yaml'' ''meta-data.yaml'' 2) =
        fst (0 :: int, healthy_world)"
    by (simp add: stopped_at_code healthy_facts numeral_2_eq_2)
next
  have "snd (stopped_at env_healthy fs0 ''seed.iso'' ''user-data.yaml'' ''meta-data.yaml'' 2) =
        healthy_world"
    by (rule world.equality)
       (simp_all add: stopped_at_trace stopped_at_files healthy_world_def healthy_facts
          image_bytes_def last_events_def buffer_size_def release_calls_def numeral_2_eq_2)
  then show "snd (stopped_at env_healthy fs0 ''seed.iso'' ''user-data.yaml'' ''meta-data.yaml'' 2) =
        snd (0 :: int, healthy_world)"
    by simp
qed

lemma healthy_run:
  "zm_geniso env_healthy fs0 (Some ''seed.iso'') (Some ''user-data.yaml'')
     (Some ''meta-data.yaml'') = Some (0, healthy_world)"
proof -
  have "\<forall>i<2. io_ok env_healthy i" "\<not> io_ok env_healthy 2"
    by (simp_all add: healthy_facts numeral_2_eq_2 less_Suc_eq)
  then have "\<exists>n. (\<forall>i<n. io_ok env_healthy i) \<and> \<not> io_ok env_healthy n \<and>
        (0, healthy_world) =
        stopped_at env_healthy fs0 ''seed.iso'' ''user-data.yaml'' ''meta-data.yaml'' n"
    using healthy_stopped by (intro exI [of _ 2]) simp
  then show ?thesis
    by (subst zm_geniso_opened_iff) (simp_all add: healthy_facts)
qed

lemma short_write_facts:
  "first_failure env_short_write ud md = None"
  "open_ret env_short_write = 3"
  "chunk_of env_short_write 0 = 3" "chunk_of env_short_write (Suc 0) = 2"
  "io_ok env_short_write 0" "\<not> io_ok env_short_write (Suc 0)"
  "produced env_short_write 0 = [1, 2, 3]" "produced env_short_write (Suc 0) = [4, 5]"
  "write_ret env_short_write (Suc 0) = 1"
  by (simp_all add: first_failure_def env_short_write_def env_healthy_def accept_node_def
        chunk_of_def io_ok_def produced_def burn_read_def short_writes_def)

lemma short_write_stopped:
  "stopped_at env_short_write fs0 ''seed.iso'' ''user-data.yaml'' ''meta-data.yaml'' 1 =
     (125, short_write_world)"
proof (rule prod_eqI)
  show "fst (stopped_at env_short_write fs0 ''seed.iso'' ''user-data.yaml'' ''meta-data.yaml'' 1) =
        fst (125 :: int, short_write_world)"
    by (simp add: stopped_at_code short_write_facts)
next
  have "snd (stopped_at env_short_write fs0 ''seed.iso'' ''user-data.yaml'' ''meta-data.yaml'' 1) =
        short_write_world"
    by (rule world.equality)
       (simp_all add: stopped_at_trace stopped_at_files short_write_world_def short_write_facts
          image_bytes_def last_events_def buffer_size_def release_calls_def)
  then show "snd (stopped_at env_short_write fs0 ''seed.iso'' ''user-data.yaml'' ''meta-data.yaml'' 1) =
        snd (125 :: int, short_write_world)"
    by simp
qed

lemma short_write_run:
  "zm_geniso env_short_write fs0 (Some ''seed.iso'') (Some ''user-data.yaml'')
     (Some ''meta-data.yaml'') = Some (125, short_write_world)"
proof -
  have "\<forall>i<1. io_ok env_short_write i" "\<not> io_ok env_short_write 1"
    by (simp_all add: short_write_facts)
  then have "\<exists>n. (\<forall>i<n. io_ok env_short_write i) \<and> \<not> io_ok env_short_write n \<and>
        (125, short_write_world) =
        stopped_at env_short_write fs0 ''seed.iso'' ''user-data.yaml'' ''meta-data.yaml'' n"
    using short_write_stopped by (intro exI [of _ 1]) simp
  then show ?thesis
    by (subst zm_geniso_opened_iff) (simp_all add: short_write_facts)
qed

lemma open_fails_facts:
  "first_failure env_open_fails ud md = None"
  "open_ret env_open_fails = - 1" "open_errno env_open_fails = 13"
  "errno_at_return env_open_fails = 4"
  by (simp_all add: first_failure_def env_open_fails_def env_healthy_def accept_node_def
        errno_at_return_def set_errno_def)

lemma open_fails_errno_cleared_facts:
  "first_failure env_open_fails_errno_cleared ud md = None"
  "open_ret env_open_fails_errno_cleared = - 1" "open_errno env_open_fails_errno_cleared = 13"
  "errno_at_return env_open_fails_errno_cleared = 0"
  by (simp_all add: first_failure_def env_open_fails_errno_cleared_def env_healthy_def
        accept_node_def errno_at_return_def set_errno_def)

lemma add_fails_facts:
  "\<not> isoburn_initialize_ret env_add_fails \<le> 0" "\<not> iso_init_ret env_add_fails < 0"
  "\<not> (iso_image_new_ret env_add_fails < 0 \<or> iso_image_new_null env_add_fails)"
  "\<not> iso_image_get_root_null env_add_fails"
  "iso_tree_add_new_node_ret env_add_fails ''user-data'' ud < 0"
  "first_failure env_add_fails ud md = Some Add_user_data"
  by (simp_all add: first_failure_def env_add_fails_def env_healthy_def refuse_user_data_def)

lemma init_fails_facts:
  "isoburn_initialize_ret env_init_fails \<le> 0"
  "first_failure env_init_fails ud md = Some Library_init"
  by (simp_all add: first_failure_def env_init_fails_def env_healthy_def)

section \<open>The claims\<close>

text \<open>
  C1 does not hold of the code: on the path of a failed \<^verbatim>\<open>open\<close> the function returns
  \<^verbatim>\<open>errno\<close> as it stands after \<^verbatim>\<open>burn_source_free\<close>, \<^verbatim>\<open>iso_write_opts_free\<close> and
  \<^verbatim>\<open>iso_image_unref\<close>, and nothing keeps that value from being 0. Here every step of the
  setup succeeds, \<^verbatim>\<open>open\<close> fails with 13 (\<^verbatim>\<open>EACCES\<close>), the first release call leaves 0 in
  \<^verbatim>\<open>errno\<close>, and the function returns 0: no read and no write was made, and no file
  stands at the output path.
\<close>

theorem zm_geniso_returns_zero_without_image:
  "open_ret env_open_fails_errno_cleared < 0 \<and>
   zm_geniso env_open_fails_errno_cleared fs0 (Some ''seed.iso'') (Some ''user-data.yaml'')
     (Some ''meta-data.yaml'') =
     Some (0, \<lparr>trace = setup_calls ''user-data.yaml'' ''meta-data.yaml'' @
                        Ev_open ''seed.iso'' (- 1) # release_calls,
               files = fs0\<rparr>) \<and>
   fs0 ''seed.iso'' = None"
  by (simp add: zm_geniso_open_failure open_fails_errno_cleared_facts fs0_def)

text \<open>
  C2: whenever the function returns, every burn source it asked for was made from an
  image whose volume identifier is \<^verbatim>\<open>cidata\<close> and whose root holds exactly two nodes,
  \<^verbatim>\<open>user-data\<close> added from the \<^verbatim>\<open>user_data\<close> argument and \<^verbatim>\<open>meta-data\<close> added from
  the \<^verbatim>\<open>meta_data\<close> argument; and whenever the output file was opened, such a burn
  source had been asked for. So an image that is emitted is that image.
\<close>

theorem zm_geniso_image_is_cidata:
  assumes "zm_geniso env fs (Some out) (Some ud) (Some md) = Some (rc, w)"
  shows "(Ev_iso_image_create_burn_source img opts \<in> set (trace w) \<longrightarrow>
            volume_id img = ''cidata'' \<and>
            root_nodes img = [(''user-data'', ud), (''meta-data'', md)]) \<and>
         (Ev_open path fd \<in> set (trace w) \<longrightarrow>
            (\<exists>opts'. Ev_iso_image_create_burn_source
                       \<lparr>volume_id = ''cidata'',
                        root_nodes = [(''user-data'', ud), (''meta-data'', md)]\<rparr> opts'
                     \<in> set (trace w)))"
proof (rule conjI)
  show "Ev_iso_image_create_burn_source img opts \<in> set (trace w) \<longrightarrow>
            volume_id img = ''cidata'' \<and>
            root_nodes img = [(''user-data'', ud), (''meta-data'', md)]"
  proof
    assume "Ev_iso_image_create_burn_source img opts \<in> set (trace w)"
    from encoder_call [OF assms this]
    show "volume_id img = ''cidata'' \<and>
          root_nodes img = [(''user-data'', ud), (''meta-data'', md)]"
      by (simp add: cidata_image_def)
  qed
next
  show "Ev_open path fd \<in> set (trace w) \<longrightarrow>
            (\<exists>opts'. Ev_iso_image_create_burn_source
                       \<lparr>volume_id = ''cidata'',
                        root_nodes = [(''user-data'', ud), (''meta-data'', md)]\<rparr> opts'
                     \<in> set (trace w))"
  proof
    assume "Ev_open path fd \<in> set (trace w)"
    from encoder_called_before_open [OF assms this]
    have "Ev_iso_image_create_burn_source
            \<lparr>volume_id = ''cidata'',
             root_nodes = [(''user-data'', ud), (''meta-data'', md)]\<rparr> cidata_opts
          \<in> set (trace w)"
      by (simp add: cidata_image_def)
    then show "\<exists>opts'. Ev_iso_image_create_burn_source
                   \<lparr>volume_id = ''cidata'',
                    root_nodes = [(''user-data'', ud), (''meta-data'', md)]\<rparr> opts'
                 \<in> set (trace w)"
      by (rule exI)
  qed
qed

theorem zm_geniso_image_is_cidata_witness:
  "zm_geniso env_healthy fs0 (Some ''seed.iso'') (Some ''user-data.yaml'')
     (Some ''meta-data.yaml'') = Some (0, healthy_world) \<and>
   Ev_open ''seed.iso'' 3 \<in> set (trace healthy_world) \<and>
   (\<exists>opts'. Ev_iso_image_create_burn_source
              \<lparr>volume_id = ''cidata'',
               root_nodes = [(''user-data'', ''user-data.yaml''),
                             (''meta-data'', ''meta-data.yaml'')]\<rparr> opts'
            \<in> set (trace healthy_world))"
  using zm_geniso_image_is_cidata [OF healthy_run, of _ _ "''seed.iso''" 3] healthy_run
  by (simp add: healthy_world_def)

text \<open>
  C3, as the code has it: when any of the three arguments is null, the function returns
  \<^verbatim>\<open>EINVAL\<close> and does nothing else: it makes no call and leaves the file system as it
  was. The check is \<^verbatim>\<open>!output || !user_data || !meta_data\<close>: an empty string is not
  null and passes it.
\<close>

theorem zm_geniso_null_argument: "output = None \<or> user_data = None \<or> meta_data = None \<Longrightarrow>
   zm_geniso env fs output user_data meta_data = Some (EINVAL, \<lparr>trace = [], files = fs\<rparr>)"
  by (rule zm_geniso_null)

theorem zm_geniso_null_argument_witness:
  "zm_geniso env_healthy fs0 None (Some ''user-data.yaml'') (Some ''meta-data.yaml'') =
     Some (EINVAL, \<lparr>trace = [], files = fs0\<rparr>)"
  using zm_geniso_null_argument [of None "Some ''user-data.yaml''" "Some ''meta-data.yaml''" env_healthy fs0]
  by simp

text \<open>
  An empty output path is not refused: the function goes on to initialise the library,
  and here returns 126 after that call.
\<close>

theorem zm_geniso_empty_argument_counterexample:
  "zm_geniso env_init_fails fs0 (Some []) (Some ''user-data.yaml'') (Some ''meta-data.yaml'') =
     Some (126, \<lparr>trace = [Ev_isoburn_initialize], files = fs0\<rparr>) \<and>
   (126 :: int) \<noteq> EINVAL"
  by (simp add: fail_isoburn_initialize env_init_fails_def env_healthy_def EINVAL_def)

text \<open>
  C4, as the code has it: a failure of the library initialisation, of the image creation
  (the root lookup included), of the write-options creation or of the burn-source
  creation returns 126; a failure to add either of the two nodes returns 125. And 125 is
  returned in these cases only: a node could not be added, a read or a write of the
  write loop failed, or the \<^verbatim>\<open>open\<close> failed and the \<^verbatim>\<open>errno\<close> returned is itself 125.
\<close>

theorem zm_geniso_exit_codes:
  "(first_failure env ud md = Some s \<longrightarrow>
      (\<exists>w. zm_geniso env fs (Some out) (Some ud) (Some md) =
             Some (if s = Add_user_data \<or> s = Add_meta_data then 125 else 126, w))) \<and>
   (zm_geniso env fs (Some out) (Some ud) (Some md) = Some (125, w) \<longrightarrow>
      first_failure env ud md = Some Add_user_data \<or>
      first_failure env ud md = Some Add_meta_data \<or>
      (first_failure env ud md = None \<and> open_ret env < 0 \<and> errno_at_return env = 125) \<or>
      (first_failure env ud md = None \<and> 0 \<le> open_ret env \<and>
         (\<exists>e\<in>set (trace w). io_failure e)))"
proof (intro conjI impI)
  assume s: "first_failure env ud md = Some s"
  from zm_geniso_setup_failure [OF s, of fs out]
  show "\<exists>w. zm_geniso env fs (Some out) (Some ud) (Some md) =
             Some (if s = Add_user_data \<or> s = Add_meta_data then 125 else 126, w)"
    by blast
next
  assume run: "zm_geniso env fs (Some out) (Some ud) (Some md) = Some (125, w)"
  from zm_geniso_cases [OF run]
  show "first_failure env ud md = Some Add_user_data \<or>
      first_failure env ud md = Some Add_meta_data \<or>
      (first_failure env ud md = None \<and> open_ret env < 0 \<and> errno_at_return env = 125) \<or>
      (first_failure env ud md = None \<and> 0 \<le> open_ret env \<and>
         (\<exists>e\<in>set (trace w). io_failure e))"
  proof (elim disjE exE conjE, goal_cases)
    case (1 s)
    from 1(2) have "s = Add_user_data \<or> s = Add_meta_data" by (simp split: if_splits)
    then show ?case using 1(1) by auto
  next
    case 2
    then show ?case by simp
  next
    case (3 n)
    from 3(5) have code: "fst (stopped_at env fs out ud md n) = 125"
      and w: "w = snd (stopped_at env fs out ud md n)"
      by (metis fst_conv, metis snd_conv)
    from code have "chunk_of env n \<noteq> 0" by (simp add: stopped_at_code split: if_splits)
    from last_events_failure [OF 3(4) this, of "open_ret env"]
    have "io_failure (last (last_events env (open_ret env) n))" .
    moreover have "last (last_events env (open_ret env) n) \<in> set (trace w)"
      unfolding w stopped_at_shape by simp
    ultimately have "\<exists>e\<in>set (trace w). io_failure e" by (rule rev_bexI [rotated])
    then show ?case using 3(1,2) by simp
  qed
qed

theorem zm_geniso_exit_codes_witness:
  "first_failure env_add_fails ''user-data.yaml'' ''meta-data.yaml'' = Some Add_user_data \<and>
   (\<exists>w. zm_geniso env_add_fails fs0 (Some ''seed.iso'') (Some ''user-data.yaml'')
          (Some ''meta-data.yaml'') = Some (125, w)) \<and>
   zm_geniso env_short_write fs0 (Some ''seed.iso'') (Some ''user-data.yaml'')
     (Some ''meta-data.yaml'') = Some (125, short_write_world) \<and>
   (\<exists>e\<in>set (trace short_write_world). io_failure e)"
  using zm_geniso_exit_codes [of env_add_fails "''user-data.yaml''" "''meta-data.yaml''" Add_user_data fs0
              "''seed.iso''"]
    zm_geniso_exit_codes [of env_short_write "''user-data.yaml''" "''meta-data.yaml''" _ fs0 "''seed.iso''"
           short_write_world]
    add_fails_facts(6) [of "''user-data.yaml''" "''meta-data.yaml''"]
    short_write_facts(1) [of "''user-data.yaml''" "''meta-data.yaml''"]
    short_write_facts(2) short_write_run
  by simp

text \<open>
  A setup failure that does not return 126: the library refuses the node \<^verbatim>\<open>user-data\<close>.
\<close>

theorem zm_geniso_add_node_failure_counterexample:
  "iso_tree_add_new_node_ret env_add_fails ''user-data'' ''user-data.yaml'' < 0 \<and>
   zm_geniso env_add_fails fs0 (Some ''seed.iso'') (Some ''user-data.yaml'')
     (Some ''meta-data.yaml'') =
     Some (125, \<lparr>trace = [Ev_isoburn_initialize, Ev_iso_init, Ev_iso_image_new ''cidata'',
                          Ev_iso_image_set_volume_id ''cidata'', Ev_iso_image_get_root,
                          Ev_iso_tree_add_new_node ''user-data'' ''user-data.yaml'',
                          Ev_iso_image_unref],
                 files = fs0\<rparr>)"
  using add_fails_facts(5) [of "''user-data.yaml''"]
    fail_add_user_data [where env = env_add_fails and ud = "''user-data.yaml''" and fs = fs0
                          and out = "''seed.iso''" and md = "''meta-data.yaml''",
                        OF add_fails_facts(1-5)]
  by simp

text \<open>
  C5 does not hold of the code: \<^verbatim>\<open>return errno\<close> stands after \<^verbatim>\<open>burn_source_free\<close>,
  \<^verbatim>\<open>iso_write_opts_free\<close> and \<^verbatim>\<open>iso_image_unref\<close>, so the function returns what \<^verbatim>\<open>errno\<close>
  holds after these calls. Here \<^verbatim>\<open>open\<close> fails with 13 (\<^verbatim>\<open>EACCES\<close>), the first release call
  leaves 4 (\<^verbatim>\<open>EINTR\<close>) in \<^verbatim>\<open>errno\<close>, and the function returns 4.
\<close>

theorem zm_geniso_open_failure_returns_later_errno:
  "open_ret env_open_fails < 0 \<and> open_errno env_open_fails = 13 \<and>
   zm_geniso env_open_fails fs0 (Some ''seed.iso'') (Some ''user-data.yaml'')
     (Some ''meta-data.yaml'') =
     Some (4, \<lparr>trace = setup_calls ''user-data.yaml'' ''meta-data.yaml'' @
                        Ev_open ''seed.iso'' (- 1) # release_calls,
               files = fs0\<rparr>)"
  by (simp add: zm_geniso_open_failure open_fails_facts)

text \<open>
  C6: whenever the function returns, every burn source it asked for was given write
  options of ISO level 2 with Rock Ridge and Joliet switched on; and whenever the output
  file was opened, a burn source with these options had been asked for.
\<close>

theorem zm_geniso_write_options:
  assumes "zm_geniso env fs (Some out) (Some ud) (Some md) = Some (rc, w)"
  shows "(Ev_iso_image_create_burn_source img opts \<in> set (trace w) \<longrightarrow>
            iso_level opts = 2 \<and> rock_ridge opts \<and> joliet opts) \<and>
         (Ev_open path fd \<in> set (trace w) \<longrightarrow>
            (\<exists>img'. Ev_iso_image_create_burn_source img'
                       \<lparr>iso_level = 2, rock_ridge = True, joliet = True\<rparr>
                     \<in> set (trace w)))"
proof (rule conjI)
  show "Ev_iso_image_create_burn_source img opts \<in> set (trace w) \<longrightarrow>
            iso_level opts = 2 \<and> rock_ridge opts \<and> joliet opts"
  proof
    assume "Ev_iso_image_create_burn_source img opts \<in> set (trace w)"
    from encoder_call [OF assms this]
    show "iso_level opts = 2 \<and> rock_ridge opts \<and> joliet opts"
      by (simp add: cidata_opts_def)
  qed
next
  show "Ev_open path fd \<in> set (trace w) \<longrightarrow>
            (\<exists>img'. Ev_iso_image_create_burn_source img'
                       \<lparr>iso_level = 2, rock_ridge = True, joliet = True\<rparr>
                     \<in> set (trace w))"
  proof
    assume "Ev_open path fd \<in> set (trace w)"
    from encoder_called_before_open [OF assms this]
    have "Ev_iso_image_create_burn_source (cidata_image ud md)
            \<lparr>iso_level = 2, rock_ridge = True, joliet = True\<rparr> \<in> set (trace w)"
      by (simp add: cidata_opts_def)
    then show "\<exists>img'. Ev_iso_image_create_burn_source img'
                   \<lparr>iso_level = 2, rock_ridge = True, joliet = True\<rparr>
                 \<in> set (trace w)"
      by (rule exI)
  qed
qed

theorem zm_geniso_write_options_witness:
  "zm_geniso env_healthy fs0 (Some ''seed.iso'') (Some ''user-data.yaml'')
     (Some ''meta-data.yaml'') = Some (0, healthy_world) \<and>
   Ev_open ''seed.iso'' 3 \<in> set (trace healthy_world) \<and>
   (\<exists>img'. Ev_iso_image_create_burn_source img'
              \<lparr>iso_level = 2, rock_ridge = True, joliet = True\<rparr>
            \<in> set (trace healthy_world))"
  using zm_geniso_write_options [OF healthy_run, of _ _ "''seed.iso''" 3] healthy_run
  by (simp add: healthy_world_def)

text \<open>
  C7: whenever the function returns and its trace holds a read that returned a negative
  chunk, or a write that did not return the count it was given (fewer bytes, or an
  error), the function returns 125 and no read and no write comes after that event. And
  the function does return then: when the first \<open>n\<close> iterations go round and iteration
  \<open>n\<close> has such a read or such a write, the function returns 125.
\<close>

theorem zm_geniso_stops_at_first_io_failure:
  "(zm_geniso env fs output user_data meta_data = Some (rc, w) \<and>
    trace w = pre @ e # post \<and> io_failure e \<longrightarrow>
      rc = 125 \<and> (\<forall>x\<in>set post. \<not> is_io x)) \<and>
   (first_failure env ud md = None \<and> 0 \<le> open_ret env \<and> (\<forall>i<n. io_ok env i) \<and>
    (chunk_of env n < 0 \<or> 0 < chunk_of env n \<and> write_ret env n \<noteq> chunk_of env n) \<longrightarrow>
      (\<exists>w'. zm_geniso env fs (Some out) (Some ud) (Some md) = Some (125, w')))"
proof (rule conjI)
  show "zm_geniso env fs output user_data meta_data = Some (rc, w) \<and>
        trace w = pre @ e # post \<and> io_failure e \<longrightarrow>
          rc = 125 \<and> (\<forall>x\<in>set post. \<not> is_io x)"
    using nothing_after_io_failure [of env fs "output" user_data meta_data rc w pre e post]
    by simp
next
  show "first_failure env ud md = None \<and> 0 \<le> open_ret env \<and> (\<forall>i<n. io_ok env i) \<and>
        (chunk_of env n < 0 \<or> 0 < chunk_of env n \<and> write_ret env n \<noteq> chunk_of env n) \<longrightarrow>
          (\<exists>w'. zm_geniso env fs (Some out) (Some ud) (Some md) = Some (125, w'))"
  proof
    assume h: "first_failure env ud md = None \<and> 0 \<le> open_ret env \<and> (\<forall>i<n. io_ok env i) \<and>
        (chunk_of env n < 0 \<or> 0 < chunk_of env n \<and> write_ret env n \<noteq> chunk_of env n)"
    then have ff: "first_failure env ud md = None" and op: "0 \<le> open_ret env"
      and ok: "\<forall>i<n. io_ok env i" by simp_all
    from h have stop: "\<not> io_ok env n" and neq: "chunk_of env n \<noteq> 0"
      by (auto simp add: io_ok_def)
    have "zm_geniso env fs (Some out) (Some ud) (Some md) =
            Some (stopped_at env fs out ud md n)"
      unfolding zm_geniso_opened_iff [OF ff op] using ok stop by blast
    moreover have "fst (stopped_at env fs out ud md n) = 125"
      using neq by (simp add: stopped_at_code)
    ultimately have "zm_geniso env fs (Some out) (Some ud) (Some md) =
            Some (125, snd (stopped_at env fs out ud md n))"
      by (metis prod.collapse)
    then show "\<exists>w'. zm_geniso env fs (Some out) (Some ud) (Some md) = Some (125, w')"
      by (rule exI)
  qed
qed

theorem zm_geniso_stops_at_first_io_failure_witness:
  "zm_geniso env_short_write fs0 (Some ''seed.iso'') (Some ''user-data.yaml'')
     (Some ''meta-data.yaml'') = Some (125, short_write_world) \<and>
   trace short_write_world =
     (setup_calls ''user-data.yaml'' ''meta-data.yaml'' @
        [Ev_open ''seed.iso'' 3, Ev_read 2048 3, Ev_write 3 [1, 2, 3] 3 3, Ev_read 2048 2]) @
     Ev_write 3 [4, 5] 2 1 #
     [Ev_close 3, Ev_burn_source_free, Ev_iso_write_opts_free, Ev_iso_image_unref] \<and>
   io_failure (Ev_write 3 [4, 5] 2 1) \<and>
   filter is_io [Ev_close 3, Ev_burn_source_free, Ev_iso_write_opts_free, Ev_iso_image_unref] = [] \<and>
   first_failure env_short_write ''user-data.yaml'' ''meta-data.yaml'' = None \<and>
   0 \<le> open_ret env_short_write \<and> io_ok env_short_write 0 \<and>
   0 < chunk_of env_short_write 1 \<and>
   write_ret env_short_write 1 \<noteq> chunk_of env_short_write 1"
proof -
  have split: "trace short_write_world =
     (setup_calls ''user-data.yaml'' ''meta-data.yaml'' @
        [Ev_open ''seed.iso'' 3, Ev_read 2048 3, Ev_write 3 [1, 2, 3] 3 3, Ev_read 2048 2]) @
     Ev_write 3 [4, 5] 2 1 #
     [Ev_close 3, Ev_burn_source_free, Ev_iso_write_opts_free, Ev_iso_image_unref]"
    by (simp add: short_write_world_def)
  have fail: "io_failure (Ev_write 3 [4, 5] 2 1)" by simp
  from zm_geniso_stops_at_first_io_failure
         [of env_short_write fs0 "Some ''seed.iso''" "Some ''user-data.yaml''"
             "Some ''meta-data.yaml''" 125 short_write_world
             "setup_calls ''user-data.yaml'' ''meta-data.yaml'' @
                [Ev_open ''seed.iso'' 3, Ev_read 2048 3, Ev_write 3 [1, 2, 3] 3 3,
                 Ev_read 2048 2]"
             "Ev_write 3 [4, 5] 2 1"
             "[Ev_close 3, Ev_burn_source_free, Ev_iso_write_opts_free, Ev_iso_image_unref]"
             "''user-data.yaml''" "''meta-data.yaml''" 1 "''seed.iso''"]
    short_write_run split fail
    short_write_facts(1) [of "''user-data.yaml''" "''meta-data.yaml''"]
    short_write_facts(2-6) short_write_facts(9)
  show ?thesis by simp
qed

text \<open>
  C9: a call that returns before the \<^verbatim>\<open>open\<close>, for a null argument or for a failure of
  any step of the setup, leaves the whole file system as it was, the output path with it,
  and its trace holds no \<^verbatim>\<open>open\<close>.
\<close>

theorem zm_geniso_early_return_leaves_files:
  "(output = None \<or> user_data = None \<or> meta_data = None \<longrightarrow>
      (\<exists>w. zm_geniso env fs output user_data meta_data = Some (EINVAL, w) \<and>
           files w = fs \<and> (\<forall>x\<in>set (trace w). \<not> is_open x))) \<and>
   (first_failure env ud md \<noteq> None \<longrightarrow>
      (\<exists>rc w. zm_geniso env fs (Some out) (Some ud) (Some md) = Some (rc, w) \<and>
            (rc = 126 \<or> rc = 125) \<and>
            files w = fs \<and> (\<forall>x\<in>set (trace w). \<not> is_open x)))"
proof (intro conjI impI)
  assume "output = None \<or> user_data = None \<or> meta_data = None"
  from zm_geniso_null [OF this, of env fs]
  show "\<exists>w. zm_geniso env fs output user_data meta_data = Some (EINVAL, w) \<and>
           files w = fs \<and> (\<forall>x\<in>set (trace w). \<not> is_open x)"
    by simp
next
  assume "first_failure env ud md \<noteq> None"
  then obtain s where s: "first_failure env ud md = Some s" by auto
  from zm_geniso_setup_failure [OF s, of fs out] obtain tr where
    tr: "zm_geniso env fs (Some out) (Some ud) (Some md) =
           Some (if s = Add_user_data \<or> s = Add_meta_data then 125 else 126,
                 \<lparr>trace = tr, files = fs\<rparr>)"
        "set tr \<subseteq> set (setup_calls ud md) \<union> set release_calls"
    by blast
  have "\<forall>x\<in>set tr. \<not> is_open x"
    using tr(2) setup_calls_plain release_calls_plain by blast
  then show "\<exists>rc w. zm_geniso env fs (Some out) (Some ud) (Some md) = Some (rc, w) \<and>
            (rc = 126 \<or> rc = 125) \<and>
            files w = fs \<and> (\<forall>x\<in>set (trace w). \<not> is_open x)"
    using tr(1) by simp
qed

theorem zm_geniso_early_return_leaves_files_witness:
  "(\<exists>w. zm_geniso env_init_fails fs0 None (Some ''user-data.yaml'') (Some ''meta-data.yaml'') =
          Some (EINVAL, w) \<and> files w = fs0 \<and> filter is_open (trace w) = []) \<and>
   first_failure env_init_fails ''user-data.yaml'' ''meta-data.yaml'' \<noteq> None \<and>
   (\<exists>rc w. zm_geniso env_init_fails fs0 (Some ''seed.iso'') (Some ''user-data.yaml'')
             (Some ''meta-data.yaml'') = Some (rc, w) \<and>
           (rc = 126 \<or> rc = 125) \<and> files w = fs0 \<and> filter is_open (trace w) = [])"
  using zm_geniso_early_return_leaves_files [of None "Some ''user-data.yaml''" "Some ''meta-data.yaml''" env_init_fails fs0
              "''user-data.yaml''" "''meta-data.yaml''" "''seed.iso''"]
    init_fails_facts(2) [of "''user-data.yaml''" "''meta-data.yaml''"]
  by (simp add: filter_empty_conv)



end
